theory Spec2Isabelle
  imports Main "HOL-Library.Word"
begin

unbundle bit_operations_syntax

section \<open>Data model of TxCache.cpp\<close>

text \<open>
  The fixed-width integer types of the source. A C \<open>int\<close> is a 32-bit word that is
  read with \<open>sint\<close>; adding an \<open>int\<close> to a \<open>uint64\<close> converts it first
  (sign extension, \<open>scast\<close>), and the sum wraps modulo \<open>2 ^ 64\<close>.
\<close>

type_synonym uint8 = "8 word"
type_synonym uint16 = "16 word"
type_synonym uint32 = "32 word"
type_synonym uint64 = "64 word"
type_synonym cint = "32 word"
type_synonym int64 = "64 word"

text \<open>\<open>Checksum\<close> converts to \<open>uint64\<close>; \<open>!checksum\<close> is \<open>checksum = 0\<close>.\<close>

type_synonym Checksum = uint64

text \<open>
  Modelled from the spec: the struct \<open>GHQTexInfo\<close> is declared in a header that is not
  part of the sources. Its fields are those the code reads in \<open>TxMemoryCache::load\<close>
  (with the widths of the \<open>gzread\<close> calls) and the payload pointer \<open>data\<close>. A pointer
  to a byte buffer is the buffer's content; \<open>None\<close> is \<open>nullptr\<close>.
\<close>

record GHQTexInfo =
  data :: "uint8 list option"
  width :: cint
  height :: cint
  format :: uint32
  texture_format :: uint16
  pixel_type :: uint16
  is_hires_tex :: uint8

text \<open>
  \<open>struct TXCACHE\<close>. The iterator \<open>it\<close> into \<open>_cachelist\<close> is the identity of a
  list node; \<open>None\<close> is an iterator that was never assigned.
\<close>

record TXCACHE =
  size_tx :: cint
  info :: GHQTexInfo
  it :: "nat option"

text \<open>
  What the file uses and does not define: \<open>TxUtil::sizeofTx\<close>, the macro
  \<open>GL_TEXFMT_GZ\<close>, the allocator and zlib's \<open>uncompress\<close>. They are parameters of
  the model. \<open>malloc_ok n\<close> says whether \<open>malloc\<close> grants a request of \<open>n\<close> bytes;
  \<open>uncompress cap src\<close> is \<open>Some out\<close> when zlib returns \<open>Z_OK\<close> for a destination
  of capacity \<open>cap\<close>, \<open>out\<close> being the bytes it produced.
\<close>

record extern =
  sizeofTx :: "cint \<Rightarrow> cint \<Rightarrow> uint32 \<Rightarrow> cint"
  GL_TEXFMT_GZ :: uint32
  malloc_ok :: "nat \<Rightarrow> bool"
  uncompress :: "nat \<Rightarrow> uint8 list \<Rightarrow> uint8 list option"

text \<open>An \<open>int\<close> passed where a \<open>size_t\<close> or \<open>uint64\<close> is expected.\<close>

definition u64_of_int :: "cint \<Rightarrow> uint64" where
  "u64_of_int d = scast d"

definition size_t_of :: "cint \<Rightarrow> nat" where
  "size_t_of d = unat (u64_of_int d)"

section \<open>TxMemoryCache\<close>

text \<open>
  The members of \<open>class TxMemoryCache\<close>. \<open>_cache\<close> is a map from checksum to entry;
  \<open>_cachelist\<close> is a list of nodes, each a pair of the node's identity and the checksum
  it holds, front first.
\<close>

record TxMemoryCache =
  m_options :: uint32
  m_cacheLimit :: uint64
  m_totalSize :: uint64
  m_cache :: "uint64 \<rightharpoonup> TXCACHE"
  m_cachelist :: "(nat \<times> uint64) list"
  m_gzdest0 :: "uint8 list option"
  m_gzdest1 :: "uint8 list option"
  m_gzdestLen :: uint32

text \<open>The constructor; the scratch buffers keep their in-class initialisers.\<close>

definition TxMemoryCache_init :: "uint32 \<Rightarrow> uint64 \<Rightarrow> TxMemoryCache" where
  "TxMemoryCache_init opts lim =
     \<lparr>m_options = opts, m_cacheLimit = lim, m_totalSize = 0, m_cache = Map.empty,
      m_cachelist = [], m_gzdest0 = None, m_gzdest1 = None, m_gzdestLen = 0\<rparr>"

text \<open>\<open>push_back\<close> allocates a node whose identity no node of the list has.\<close>

primrec max_node :: "(nat \<times> uint64) list \<Rightarrow> nat" where
  "max_node [] = 0"
| "max_node (n # ns) = max (fst n) (max_node ns)"

definition new_node :: "(nat \<times> uint64) list \<Rightarrow> nat" where
  "new_node ns = Suc (max_node ns)"

definition push_back :: "(nat \<times> uint64) list \<Rightarrow> uint64 \<Rightarrow> (nat \<times> uint64) list" where
  "push_back ns c = ns @ [(new_node ns, c)]"

text \<open>
  \<open>_cachelist.erase(it)\<close>. Erasing through an iterator that names no node of the list
  is undefined in C++; the model leaves the list as it is there.
\<close>

definition erase_node :: "nat option \<Rightarrow> (nat \<times> uint64) list \<Rightarrow> (nat \<times> uint64) list" where
  "erase_node i ns = (case i of None \<Rightarrow> ns | Some k \<Rightarrow> filter (\<lambda>n. fst n \<noteq> k) ns)"

text \<open>
  The \<open>while\<close> loop of \<open>add\<close> (lines 141 to 156) together with the
  \<open>_cachelist.erase(_cachelist.begin(), itList)\<close> that follows it: the result holds
  the map, the running total and the nodes from \<open>itList\<close> on.
\<close>

fun evict :: "(uint64 \<rightharpoonup> TXCACHE) \<Rightarrow> uint64 \<Rightarrow> uint64 \<Rightarrow> (nat \<times> uint64) list
    \<Rightarrow> (uint64 \<rightharpoonup> TXCACHE) \<times> uint64 \<times> (nat \<times> uint64) list" where
  "evict cache tot lim [] = (cache, tot, [])"
| "evict cache tot lim (n # ns) =
     (let (cache', tot') =
            (case cache (snd n) of
               Some e \<Rightarrow> (cache(snd n := None), tot - u64_of_int (size_tx e))
             | None \<Rightarrow> (cache, tot))
      in if tot' \<le> lim then (cache', tot', ns) else evict cache' tot' lim ns)"

text \<open>Lines 136 to 163: the block under \<open>if (_cacheLimit != 0)\<close>.\<close>

definition make_room :: "TxMemoryCache \<Rightarrow> cint \<Rightarrow> TxMemoryCache" where
  "make_room st dataSize =
     (if m_cacheLimit st \<noteq> 0 then
        let total1 = m_totalSize st + u64_of_int dataSize;
            (cache', total2, list') =
              (if total1 > m_cacheLimit st \<and> m_cachelist st \<noteq> []
               then evict (m_cache st) total1 (m_cacheLimit st) (m_cachelist st)
               else (m_cache st, total1, m_cachelist st))
        in st\<lparr>m_totalSize := total2 - u64_of_int dataSize, m_cache := cache',
              m_cachelist := list'\<rparr>
      else st)"

text \<open>
  Lines 166 to 207. \<open>memcpy\<close> copies \<open>dataSize\<close> bytes of the caller's buffer; a buffer
  shorter than that is read out of bounds in C, the model copies what there is.
\<close>

definition store :: "extern \<Rightarrow> TxMemoryCache \<Rightarrow> Checksum \<Rightarrow> GHQTexInfo \<Rightarrow> uint8 list \<Rightarrow> cint
    \<Rightarrow> bool \<times> TxMemoryCache" where
  "store ex st checksum tex dest dataSize =
     (if \<not> malloc_ok ex (size_t_of dataSize) then (False, st)
      else
        let tmpdata = take (size_t_of dataSize) dest;
            txCache = \<lparr>size_tx = dataSize,
                       info = tex\<lparr>data := Some tmpdata, format := format tex\<rparr>,
                       it = None\<rparr>;
            (list', txCache') =
              (if m_cacheLimit st \<noteq> 0
               then (push_back (m_cachelist st) checksum,
                     txCache\<lparr>it := Some (new_node (m_cachelist st))\<rparr>)
               else (m_cachelist st, txCache))
        in (True, st\<lparr>m_cachelist := list',
                      m_cache := (m_cache st)(checksum \<mapsto> txCache'),
                      m_totalSize := m_totalSize st + u64_of_int dataSize\<rparr>))"

text \<open>\<open>TxMemoryCache::add\<close>.\<close>

definition add :: "extern \<Rightarrow> TxMemoryCache \<Rightarrow> Checksum \<Rightarrow> GHQTexInfo \<Rightarrow> cint
    \<Rightarrow> bool \<times> TxMemoryCache" where
  "add ex st checksum tex dataSize =
     (case data tex of
        None \<Rightarrow> (False, st)
      | Some dest \<Rightarrow>
          if checksum = 0 \<or> m_cache st checksum \<noteq> None then (False, st)
          else if dataSize = 0 then
            (let dataSize' = sizeofTx ex (width tex) (height tex) (format tex)
             in if dataSize' = 0 then (False, st)
                else store ex (make_room st dataSize') checksum tex dest dataSize')
          else store ex (make_room st dataSize) checksum tex dest dataSize)"

text \<open>Lines 221 to 226: the entry's node moves to the back of \<open>_cachelist\<close>.\<close>

definition promote :: "TxMemoryCache \<Rightarrow> Checksum \<Rightarrow> TXCACHE \<Rightarrow> TxMemoryCache" where
  "promote st checksum e =
     (let list1 = erase_node (it e) (m_cachelist st)
      in st\<lparr>m_cachelist := push_back list1 checksum,
            m_cache := (m_cache st)(checksum \<mapsto> e\<lparr>it := Some (new_node list1)\<rparr>)\<rparr>)"

text \<open>The \<open>size\<close> bytes at \<open>info.data\<close> of an entry: the source handed to \<open>uncompress\<close>.\<close>

definition stored_bytes :: "TXCACHE \<Rightarrow> uint8 list" where
  "stored_bytes e =
     (case data (info e) of None \<Rightarrow> [] | Some bs \<Rightarrow> take (size_t_of (size_tx e)) bs)"

text \<open>
  \<open>TxMemoryCache::get\<close>. The result is the return value, the caller's record after the
  call and the cache. \<open>dest\<close> is one of the two scratch buffers; the record returned on
  success points to it. The test \<open>_gzdest0 == info->data\<close> compares addresses and the
  model compares contents: no member function assigns the scratch buffers, so
  \<open>_gzdest0\<close> is null, the payload pointer of a cached record is not, and both
  comparisons are false.
\<close>

definition get :: "extern \<Rightarrow> TxMemoryCache \<Rightarrow> Checksum \<Rightarrow> GHQTexInfo
    \<Rightarrow> bool \<times> GHQTexInfo \<times> TxMemoryCache" where
  "get ex st checksum tex =
     (if checksum = 0 \<or> m_cache st = Map.empty then (False, tex, st)
      else
        case m_cache st checksum of
          None \<Rightarrow> (False, tex, st)
        | Some e \<Rightarrow>
            let tex1 = info e;
                st1 = (if m_cacheLimit st \<noteq> 0 then promote st checksum e else st)
            in if format tex1 AND GL_TEXFMT_GZ ex \<noteq> 0 then
                 (let second = (m_gzdest0 st1 = data tex1);
                      dest = (if second then m_gzdest1 st1 else m_gzdest0 st1);
                      src = stored_bytes e
                  in case uncompress ex (unat (m_gzdestLen st1)) src of
                       None \<Rightarrow> (False, tex1, st1)
                     | Some out \<Rightarrow>
                         let written = map_option (\<lambda>_. out) dest
                         in (True,
                             tex1\<lparr>data := written,
                                  format := format tex1 AND NOT (GL_TEXFMT_GZ ex)\<rparr>,
                             if second then st1\<lparr>m_gzdest1 := written\<rparr>
                             else st1\<lparr>m_gzdest0 := written\<rparr>))
               else (True, tex1, st1))"

text \<open>\<open>TxMemoryCache::del\<close>.\<close>

definition del :: "TxMemoryCache \<Rightarrow> Checksum \<Rightarrow> bool \<times> TxMemoryCache" where
  "del st checksum =
     (if checksum = 0 \<or> m_cache st = Map.empty then (False, st)
      else
        case m_cache st checksum of
          None \<Rightarrow> (False, st)
        | Some e \<Rightarrow>
            (True,
             st\<lparr>m_cachelist :=
                  (if m_cachelist st \<noteq> [] then erase_node (it e) (m_cachelist st)
                   else m_cachelist st),
                m_totalSize := m_totalSize st - u64_of_int (size_tx e),
                m_cache := (m_cache st)(checksum := None)\<rparr>))"

definition isCached :: "TxMemoryCache \<Rightarrow> Checksum \<Rightarrow> bool" where
  "isCached st checksum = (m_cache st checksum \<noteq> None)"

definition clear :: "TxMemoryCache \<Rightarrow> TxMemoryCache" where
  "clear st = st\<lparr>m_cache := Map.empty, m_cachelist := [], m_totalSize := 0\<rparr>"

definition empty_cache :: "TxMemoryCache \<Rightarrow> bool" where
  "empty_cache st = (m_cache st = Map.empty)"

definition size_cache :: "TxMemoryCache \<Rightarrow> uint64" where
  "size_cache st = of_nat (card (dom (m_cache st)))"

definition totalSize :: "TxMemoryCache \<Rightarrow> uint64" where
  "totalSize st = m_totalSize st"

definition cacheLimit :: "TxMemoryCache \<Rightarrow> uint64" where
  "cacheLimit st = m_cacheLimit st"

definition getOptions :: "TxMemoryCache \<Rightarrow> uint32" where
  "getOptions st = m_options st"

definition setOptions :: "TxMemoryCache \<Rightarrow> uint32 \<Rightarrow> TxMemoryCache" where
  "setOptions st opts = st\<lparr>m_options := opts\<rparr>"

text \<open>
  \<open>TxMemoryCache::save\<close> is \<open>return false;\<close>: it reads and writes neither the cache
  nor any file, so the file system \<open>fs\<close> and the cache come back as they went in.
\<close>

type_synonym wstring = string

record gz_record =
  r_checksum :: uint64
  r_width :: cint
  r_height :: cint
  r_format :: uint32
  r_texture_format :: uint16
  r_pixel_type :: uint16
  r_is_hires_tex :: uint8
  r_dataSize :: cint
  r_payload :: "uint8 list"
  r_read_ok :: bool

text \<open>
  A cache file as \<open>TxMemoryCache::load\<close> sees it. The code never looks at what
  \<open>gzread\<close> returns, so a file is described by what the reads leave in the locals:
  the config word, and for each pass of the \<open>do ... while (!gzeof(gzfp))\<close> loop the
  header fields, \<open>dataSize\<close> and the content of the buffer after the payload read.
  \<open>r_read_ok\<close> says whether every \<open>gzread\<close> of the pass delivered the bytes asked
  for; when one came up short (a truncated file) the locals hold what was there before.
  \<open>load\<close> does not look at it. The loop body runs at least once: \<open>gz_first\<close> is its
  first pass. A \<open>gz_file\<close> lists the passes of a call whose loop ends; a stream on
  which \<open>gzeof\<close> never becomes true is not described.
\<close>

record gz_file =
  gz_config :: cint
  gz_first :: gz_record
  gz_rest :: "gz_record list"

type_synonym filesystem = "wstring \<times> wstring \<Rightarrow> gz_file option"

definition save :: "filesystem \<Rightarrow> TxMemoryCache \<Rightarrow> wstring \<Rightarrow> wstring \<Rightarrow> cint
    \<Rightarrow> bool \<times> filesystem \<times> TxMemoryCache" where
  "save fs st path filename config = (False, fs, st)"

text \<open>One pass of the loop body of \<open>load\<close>, lines 282 to 305.\<close>

definition load_pass :: "extern \<Rightarrow> TxMemoryCache \<Rightarrow> gz_record \<Rightarrow> TxMemoryCache" where
  "load_pass ex st r =
     (if malloc_ok ex (size_t_of (r_dataSize r)) then
        snd (add ex st (r_checksum r)
               \<lparr>data = Some (r_payload r), width = r_width r, height = r_height r,
                format = r_format r, texture_format = r_texture_format r,
                pixel_type = r_pixel_type r, is_hires_tex = r_is_hires_tex r\<rparr>
               (if r_format r AND GL_TEXFMT_GZ ex \<noteq> 0 then r_dataSize r else 0))
      else st)"

text \<open>
  \<open>TxMemoryCache::load\<close>. \<open>gzopen\<close> finds the file named \<open>filename\<close> in the directory
  \<open>path\<close> or returns null.
\<close>

definition load :: "extern \<Rightarrow> filesystem \<Rightarrow> TxMemoryCache \<Rightarrow> wstring \<Rightarrow> wstring \<Rightarrow> cint \<Rightarrow> bool
    \<Rightarrow> bool \<times> TxMemoryCache" where
  "load ex fs st path filename config force =
     (let st' =
            (case fs (path, filename) of
               None \<Rightarrow> st
             | Some gz \<Rightarrow>
                 if gz_config gz = config \<or> force
                 then foldl (load_pass ex) st (gz_first gz # gz_rest gz)
                 else st)
      in (m_cache st' \<noteq> Map.empty, st'))"

text \<open>The calls a user of the memory backend can make, and the cache after each.\<close>

datatype mem_op =
    Add Checksum GHQTexInfo cint
  | Get Checksum GHQTexInfo
  | Del Checksum
  | Clear
  | Load filesystem wstring wstring cint bool
  | Save filesystem wstring wstring cint
  | SetOptions uint32

fun mem_step :: "extern \<Rightarrow> TxMemoryCache \<Rightarrow> mem_op \<Rightarrow> TxMemoryCache" where
  "mem_step ex st (Add c tex d) = snd (add ex st c tex d)"
| "mem_step ex st (Get c tex) = snd (snd (get ex st c tex))"
| "mem_step ex st (Del c) = snd (del st c)"
| "mem_step ex st Clear = clear st"
| "mem_step ex st (Load fs p f cfg force) = snd (load ex fs st p f cfg force)"
| "mem_step ex st (Save fs p f cfg) = snd (snd (save fs st p f cfg))"
| "mem_step ex st (SetOptions opts) = setOptions st opts"

definition mem_run :: "extern \<Rightarrow> TxMemoryCache \<Rightarrow> mem_op list \<Rightarrow> TxMemoryCache" where
  "mem_run ex st ops = foldl (mem_step ex) st ops"


definition stored_size :: "extern \<Rightarrow> GHQTexInfo \<Rightarrow> cint \<Rightarrow> cint" where
  "stored_size ex tex dataSize =
     (if dataSize = 0 then sizeofTx ex (width tex) (height tex) (format tex) else dataSize)"



section \<open>TxFileStorage\<close>

text \<open>
  The members of \<open>class TxFileStorage\<close>. The two streams are represented by whether
  they are open; \<open>_storage\<close> maps a checksum to an offset in the cache file.
\<close>

record TxFileStorage =
  f_options :: uint32
  f_cachePath :: wstring
  f_filename :: wstring
  f_totalSize :: uint64
  f_storage :: "uint64 \<rightharpoonup> int64"
  f_gzdest0 :: "uint8 list option"
  f_gzdest1 :: "uint8 list option"
  f_gzdestLen :: uint32
  f_infile_open :: bool
  f_outfile_open :: bool
  f_storagePos :: int64
  f_dirty :: bool

definition TxFileStorage_init :: "uint32 \<Rightarrow> wstring option \<Rightarrow> TxFileStorage" where
  "TxFileStorage_init opts cachePath =
     \<lparr>f_options = opts,
      f_cachePath = (case cachePath of None \<Rightarrow> [] | Some p \<Rightarrow> p),
      f_filename = [], f_totalSize = 0, f_storage = Map.empty,
      f_gzdest0 = None, f_gzdest1 = None, f_gzdestLen = 0,
      f_infile_open = False, f_outfile_open = False, f_storagePos = 0, f_dirty = False\<rparr>"

text \<open>\<open>TxFileStorage::open\<close> returns false before it does anything.\<close>

definition TxFileStorage_open :: "TxFileStorage \<Rightarrow> bool \<Rightarrow> bool \<times> TxFileStorage" where
  "TxFileStorage_open st forRead = (False, st)"

text \<open>
  What \<open>readData\<close> reads from \<open>_infile\<close> at the position it was sought to: the header
  fields, the size, the payload bytes and the stream's \<open>good()\<close> after the payload read.
  A stream keeps its error state, so \<open>rd_good\<close> is false as well when the seek or an
  earlier read failed.
\<close>

record file_read =
  rd_width :: cint
  rd_height :: cint
  rd_format :: uint32
  rd_texture_format :: uint16
  rd_pixel_type :: uint16
  rd_is_hires_tex :: uint8
  rd_dataSize :: uint32
  rd_payload :: "uint8 list"
  rd_good :: bool

definition readData :: "extern \<Rightarrow> TxFileStorage \<Rightarrow> file_read \<Rightarrow> GHQTexInfo
    \<Rightarrow> bool \<times> GHQTexInfo \<times> TxFileStorage" where
  "readData ex st rd tex =
     (let tex1 = tex\<lparr>width := rd_width rd, height := rd_height rd, format := rd_format rd,
                     texture_format := rd_texture_format rd, pixel_type := rd_pixel_type rd,
                     is_hires_tex := rd_is_hires_tex rd\<rparr>
      in if rd_dataSize rd = 0 then (False, tex1, st)
         else if f_gzdest0 st = None then (False, tex1, st)
         else
           let st1 = st\<lparr>f_gzdest0 := Some (rd_payload rd)\<rparr>
           in if \<not> rd_good rd then (False, tex1, st1)
              else if format tex1 AND GL_TEXFMT_GZ ex \<noteq> 0 then
                (case uncompress ex (unat (f_gzdestLen st1)) (rd_payload rd) of
                   None \<Rightarrow> (False, tex1, st1)
                 | Some out \<Rightarrow>
                     (True,
                      tex1\<lparr>data := map_option (\<lambda>_. out) (f_gzdest1 st1),
                           format := format tex1 AND NOT (GL_TEXFMT_GZ ex)\<rparr>,
                      st1\<lparr>f_gzdest1 := map_option (\<lambda>_. out) (f_gzdest1 st1)\<rparr>))
              else (True, tex1\<lparr>data := f_gzdest0 st1\<rparr>, st1))"

definition TxFileStorage_add :: "TxFileStorage \<Rightarrow> Checksum \<Rightarrow> GHQTexInfo \<Rightarrow> cint
    \<Rightarrow> bool \<times> TxFileStorage" where
  "TxFileStorage_add st checksum tex dataSize = (True, st)"

text \<open>\<open>infile off\<close> is what the stream delivers after \<open>seekg(off)\<close>.\<close>

definition TxFileStorage_get :: "extern \<Rightarrow> (int64 \<Rightarrow> file_read) \<Rightarrow> TxFileStorage \<Rightarrow> Checksum
    \<Rightarrow> GHQTexInfo \<Rightarrow> bool \<times> GHQTexInfo \<times> TxFileStorage" where
  "TxFileStorage_get ex infile st checksum tex =
     (if checksum = 0 \<or> f_storage st = Map.empty then (False, tex, st)
      else
        case f_storage st checksum of
          None \<Rightarrow> (False, tex, st)
        | Some off \<Rightarrow>
            if f_outfile_open st \<or> \<not> f_infile_open st then
              (let (opened, st1) = TxFileStorage_open st True
               in if \<not> opened then (False, tex, st1)
                  else readData ex st1 (infile off) tex)
            else readData ex st (infile off) tex)"

definition TxFileStorage_save :: "TxFileStorage \<Rightarrow> wstring \<Rightarrow> wstring \<Rightarrow> cint
    \<Rightarrow> bool \<times> TxFileStorage" where
  "TxFileStorage_save st path filename config = (True, st)"

definition TxFileStorage_load :: "TxFileStorage \<Rightarrow> wstring \<Rightarrow> wstring \<Rightarrow> cint \<Rightarrow> bool
    \<Rightarrow> bool \<times> TxFileStorage" where
  "TxFileStorage_load st path filename config force = (False, st)"

definition TxFileStorage_del :: "TxFileStorage \<Rightarrow> Checksum \<Rightarrow> bool \<times> TxFileStorage" where
  "TxFileStorage_del st checksum = (False, st)"

definition TxFileStorage_isCached :: "TxFileStorage \<Rightarrow> Checksum \<Rightarrow> bool" where
  "TxFileStorage_isCached st checksum = (f_storage st checksum \<noteq> None)"

definition TxFileStorage_clear :: "TxFileStorage \<Rightarrow> TxFileStorage" where
  "TxFileStorage_clear st = st"

definition TxFileStorage_empty :: "TxFileStorage \<Rightarrow> bool" where
  "TxFileStorage_empty st = (f_storage st = Map.empty)"

definition TxFileStorage_size :: "TxFileStorage \<Rightarrow> uint64" where
  "TxFileStorage_size st = of_nat (card (dom (f_storage st)))"

definition TxFileStorage_totalSize :: "TxFileStorage \<Rightarrow> uint64" where
  "TxFileStorage_totalSize st = f_totalSize st"

definition TxFileStorage_cacheLimit :: "TxFileStorage \<Rightarrow> uint64" where
  "TxFileStorage_cacheLimit st = 0"

definition TxFileStorage_setOptions :: "TxFileStorage \<Rightarrow> uint32 \<Rightarrow> TxFileStorage" where
  "TxFileStorage_setOptions st opts = st\<lparr>f_options := opts\<rparr>"

text \<open>The calls a user of the file backend can make, and the store after each.\<close>

datatype file_op =
    FAdd Checksum GHQTexInfo cint
  | FGet "int64 \<Rightarrow> file_read" Checksum GHQTexInfo
  | FSave wstring wstring cint
  | FLoad wstring wstring cint bool
  | FDel Checksum
  | FClear
  | FSetOptions uint32

fun file_step :: "extern \<Rightarrow> TxFileStorage \<Rightarrow> file_op \<Rightarrow> TxFileStorage" where
  "file_step ex st (FAdd c tex d) = snd (TxFileStorage_add st c tex d)"
| "file_step ex st (FGet infile c tex) = snd (snd (TxFileStorage_get ex infile st c tex))"
| "file_step ex st (FSave p f cfg) = snd (TxFileStorage_save st p f cfg)"
| "file_step ex st (FLoad p f cfg force) = snd (TxFileStorage_load st p f cfg force)"
| "file_step ex st (FDel c) = snd (TxFileStorage_del st c)"
| "file_step ex st FClear = TxFileStorage_clear st"
| "file_step ex st (FSetOptions opts) = TxFileStorage_setOptions st opts"

definition file_run :: "extern \<Rightarrow> TxFileStorage \<Rightarrow> file_op list \<Rightarrow> TxFileStorage" where
  "file_run ex st ops = foldl (file_step ex) st ops"

section \<open>The LRU invariant\<close>

text \<open>
  The invariant of the data model: the checksums held by the nodes of \<open>_cachelist\<close>
  are pairwise different and are exactly the keys of \<open>_cache\<close>.
\<close>

definition lru_bijection :: "TxMemoryCache \<Rightarrow> bool" where
  "lru_bijection st =
     (distinct (map snd (m_cachelist st)) \<and> set (map snd (m_cachelist st)) = dom (m_cache st))"

text \<open>
  What the code relies on besides: the nodes are pairwise different, and the iterator
  kept in an entry names the node that holds the entry's checksum, so that every
  \<open>erase\<close> goes through a valid iterator.
\<close>

definition lru_inv :: "TxMemoryCache \<Rightarrow> bool" where
  "lru_inv st =
     (lru_bijection st \<and> distinct (map fst (m_cachelist st))
      \<and> (\<forall>c e. m_cache st c = Some e \<longrightarrow> (\<exists>i. it e = Some i \<and> (i, c) \<in> set (m_cachelist st))))"

section \<open>The byte budget\<close>

text \<open>
  The stored sizes of the entries that the nodes of a list name, added up as natural
  numbers: what \<open>_totalSize\<close> stands for as long as nothing wraps around.
\<close>

definition entry_bytes :: "(uint64 \<rightharpoonup> TXCACHE) \<Rightarrow> nat \<times> uint64 \<Rightarrow> nat" where
  "entry_bytes cache n = (case cache (snd n) of None \<Rightarrow> 0 | Some e \<Rightarrow> size_t_of (size_tx e))"

definition listed_bytes :: "(uint64 \<rightharpoonup> TXCACHE) \<Rightarrow> (nat \<times> uint64) list \<Rightarrow> nat" where
  "listed_bytes cache ns = sum_list (map (entry_bytes cache) ns)"



section \<open>Sample collaborators and inputs\<close>

text \<open>
  Modelled from the spec: \<open>TxUtil::sizeofTx\<close>, \<open>GL_TEXFMT_GZ\<close>, the allocator and the
  codec are outside the sources. The spec says that the size is computed from width,
  height and format and that the computation fails (0) on an unknown format, that the
  compression flag is a high bit of the format word, and that the codec reports success
  or failure. \<open>sample_extern\<close> is one such set, used where the model is evaluated at a
  concrete input: four bytes per texel for the one format \<open>0x8058\<close> and no size for any
  other, the top bit as the flag, an allocator that grants requests below \<open>2 ^ 31\<close>
  bytes, and a codec that stores its input as it is and fails when the destination is
  too small.
\<close>

definition sample_sizeofTx :: "cint \<Rightarrow> cint \<Rightarrow> uint32 \<Rightarrow> cint" where
  "sample_sizeofTx w h f = (if f = 0x8058 then push_bit 2 (w * h) else 0)"

definition sample_extern :: extern where
  "sample_extern =
     \<lparr>sizeofTx = sample_sizeofTx,
      GL_TEXFMT_GZ = 0x80000000,
      malloc_ok = (\<lambda>n. n < 2 ^ 31),
      uncompress = (\<lambda>cap src. if length src \<le> cap then Some src else None)\<rparr>"

definition sample_tex :: "uint8 list option \<Rightarrow> uint32 \<Rightarrow> GHQTexInfo" where
  "sample_tex d f =
     \<lparr>data = d, width = 1, height = 1, format = f, texture_format = 0,
      pixel_type = 0, is_hires_tex = 0\<rparr>"

definition sample_record :: gz_record where
  "sample_record =
     \<lparr>r_checksum = 7, r_width = 1, r_height = 1, r_format = 0x8058, r_texture_format = 0,
      r_pixel_type = 0, r_is_hires_tex = 0, r_dataSize = 4, r_payload = [1, 2, 3, 4],
      r_read_ok = True\<rparr>"

definition sample_file :: gz_file where
  "sample_file = \<lparr>gz_config = 1, gz_first = sample_record, gz_rest = []\<rparr>"

text \<open>
  A file cut off after its first record: the reads of the second pass come up short and
  leave the locals as the first pass set them.
\<close>

definition sample_truncated_file :: gz_file where
  "sample_truncated_file =
     \<lparr>gz_config = 1, gz_first = sample_record,
      gz_rest = [sample_record\<lparr>r_read_ok := False\<rparr>]\<rparr>"

text \<open>
  A file backend as no call sequence produces it, with one checksum in its index: with
  the streams closed, and with the input stream open and the first scratch buffer
  allocated.
\<close>

definition sample_indexed :: TxFileStorage where
  "sample_indexed = (TxFileStorage_init 0 None)\<lparr>f_storage := [7 \<mapsto> 12]\<rparr>"

definition sample_indexed_open :: TxFileStorage where
  "sample_indexed_open = sample_indexed\<lparr>f_gzdest0 := Some [], f_infile_open := True\<rparr>"

definition sample_read :: file_read where
  "sample_read =
     \<lparr>rd_width = 1, rd_height = 1, rd_format = 0x8058, rd_texture_format = 0,
      rd_pixel_type = 0, rd_is_hires_tex = 0, rd_dataSize = 4, rd_payload = [1, 2, 3, 4],
      rd_good = True\<rparr>"

section \<open>Properties\<close>

subsection \<open>Unfolding the operations\<close>

lemmas sample_simps =
  add_def store_def make_room_def sample_tex_def sample_extern_def sample_sizeofTx_def
  TxMemoryCache_init_def size_t_of_def u64_of_int_def Let_def push_back_def new_node_def
  get_def promote_def erase_node_def stored_bytes_def

lemma make_room_frame:
  "m_cacheLimit (make_room st d) = m_cacheLimit st
   \<and> m_options (make_room st d) = m_options st
   \<and> m_gzdest0 (make_room st d) = m_gzdest0 st
   \<and> m_gzdest1 (make_room st d) = m_gzdest1 st
   \<and> m_gzdestLen (make_room st d) = m_gzdestLen st"
  by (simp add: make_room_def Let_def split: prod.splits)

lemma store_True:
  assumes "store ex st c tex dest d = (True, st1)"
  shows "st1 = st\<lparr>m_cachelist := (if m_cacheLimit st \<noteq> 0 then push_back (m_cachelist st) c
                                     else m_cachelist st),
                  m_cache := (m_cache st)(c \<mapsto>
                     \<lparr>size_tx = d, info = tex\<lparr>data := Some (take (size_t_of d) dest)\<rparr>,
                      it = (if m_cacheLimit st \<noteq> 0 then Some (new_node (m_cachelist st))
                            else None)\<rparr>),
                  m_totalSize := m_totalSize st + u64_of_int d\<rparr>"
    and "malloc_ok ex (size_t_of d)"
  using assms by (auto simp: store_def Let_def split: if_splits)

lemma add_True:
  assumes "add ex st c tex d = (True, st1)"
  shows "\<exists>dest. data tex = Some dest \<and> c \<noteq> 0 \<and> m_cache st c = None
           \<and> stored_size ex tex d \<noteq> 0
           \<and> store ex (make_room st (stored_size ex tex d)) c tex dest (stored_size ex tex d)
               = (True, st1)"
  using assms
  by (auto simp: add_def stored_size_def Let_def split: option.splits if_splits)


subsection \<open>Rejected calls of add\<close>

text \<open>
  C4. \<open>add\<close> returns false and leaves the cache (map, LRU list, total size and every
  other member) as it was when the checksum is zero, the payload pointer is null, the
  checksum is already cached, or no size was given and \<open>sizeofTx\<close> yields 0.
\<close>

theorem add_rejected_no_change:
  assumes "checksum = 0 \<or> data tex = None \<or> m_cache st checksum \<noteq> None
           \<or> (dataSize = 0 \<and> sizeofTx ex (width tex) (height tex) (format tex) = 0)"
  shows "add ex st checksum tex dataSize = (False, st)"
  using assms by (auto simp: add_def Let_def split: option.splits)

theorem add_rejected_no_change_witness:
  "add sample_extern (TxMemoryCache_init 0 0) 0 (sample_tex (Some [1, 2, 3, 4]) 0x8058) 0
     = (False, TxMemoryCache_init 0 0)
   \<and> add sample_extern (TxMemoryCache_init 0 0) 7 (sample_tex None 0x8058) 0
     = (False, TxMemoryCache_init 0 0)
   \<and> add sample_extern (TxMemoryCache_init 0 0) 7 (sample_tex (Some [1, 2, 3, 4]) 0) 0
     = (False, TxMemoryCache_init 0 0)
   \<and> add sample_extern
        (snd (add sample_extern (TxMemoryCache_init 0 0) 7 (sample_tex (Some [1, 2, 3, 4]) 0x8058) 0))
        7 (sample_tex (Some [5, 6, 7, 8]) 0x8058) 0
     = (False, snd (add sample_extern (TxMemoryCache_init 0 0) 7 (sample_tex (Some [1, 2, 3, 4]) 0x8058) 0))"
proof -
  let ?ex = sample_extern
  let ?s0 = "TxMemoryCache_init 0 0"
  let ?t = "sample_tex (Some [1, 2, 3, 4]) 0x8058"
  have a: "add ?ex ?s0 0 ?t 0 = (False, ?s0)"
    by (rule add_rejected_no_change) simp
  have b: "add ?ex ?s0 7 (sample_tex None 0x8058) 0 = (False, ?s0)"
    by (rule add_rejected_no_change) (simp add: sample_tex_def)
  have c: "add ?ex ?s0 7 (sample_tex (Some [1, 2, 3, 4]) 0) 0 = (False, ?s0)"
    by (rule add_rejected_no_change)
       (simp add: sample_tex_def sample_extern_def sample_sizeofTx_def)
  have "m_cache (snd (add ?ex ?s0 7 ?t 0)) 7 \<noteq> None"
    by (simp add: add_def store_def make_room_def sample_tex_def sample_extern_def
        sample_sizeofTx_def TxMemoryCache_init_def size_t_of_def u64_of_int_def Let_def)
  then have d: "add ?ex (snd (add ?ex ?s0 7 ?t 0)) 7 (sample_tex (Some [5, 6, 7, 8]) 0x8058) 0
      = (False, snd (add ?ex ?s0 7 ?t 0))"
    by (intro add_rejected_no_change) simp
  from a b c d show ?thesis by blast
qed

subsection \<open>The file backend\<close>

text \<open>
  C6, as amended. In the file backend \<open>add\<close> is a placeholder that returns true for
  every input (a zero checksum and a null payload included) and \<open>save\<close> returns true;
  \<open>del\<close> returns false; none of the four calls \<open>add\<close>, \<open>save\<close>, \<open>del\<close>, \<open>clear\<close>
  changes any member of the store.
\<close>

theorem file_backend_placeholders:
  "TxFileStorage_add st checksum tex dataSize = (True, st)
   \<and> TxFileStorage_save st path filename config = (True, st)
   \<and> TxFileStorage_del st checksum = (False, st)
   \<and> TxFileStorage_clear st = st"
  by (simp add: TxFileStorage_add_def TxFileStorage_save_def TxFileStorage_del_def
      TxFileStorage_clear_def)

text \<open>
  C6 as stated fails: the file backend's \<open>add\<close> returns true for a zero checksum and
  for a null payload.
\<close>

theorem file_add_accepts_invalid:
  "fst (TxFileStorage_add (TxFileStorage_init 0 None) 0 (sample_tex (Some [1, 2, 3, 4]) 0x8058) 0) = True
   \<and> fst (TxFileStorage_add (TxFileStorage_init 0 None) 7 (sample_tex None 0x8058) 0) = True"
  by (simp add: TxFileStorage_add_def)

lemma file_step_storage:
  "f_storage st = Map.empty \<Longrightarrow> f_totalSize st = 0
   \<Longrightarrow> f_storage (file_step ex st op) = Map.empty \<and> f_totalSize (file_step ex st op) = 0"
  by (cases op)
     (simp_all add: TxFileStorage_add_def TxFileStorage_get_def TxFileStorage_save_def
        TxFileStorage_load_def TxFileStorage_del_def TxFileStorage_clear_def
        TxFileStorage_setOptions_def)

lemma file_run_storage:
  "f_storage st = Map.empty \<Longrightarrow> f_totalSize st = 0
   \<Longrightarrow> f_storage (file_run ex st ops) = Map.empty \<and> f_totalSize (file_run ex st ops) = 0"
  unfolding file_run_def
  by (induction ops arbitrary: st) (simp_all add: file_step_storage)

text \<open>
  C9. Whatever calls were made on a file backend since its construction, \<open>load\<close>
  returns false and leaves the store as it is, the index is empty, \<open>size()\<close> and
  \<open>totalSize()\<close> are 0, and \<open>get\<close> and \<open>isCached\<close> return false for every checksum.
\<close>

theorem file_index_never_populated:
  "(let st = file_run ex (TxFileStorage_init opts cachePath) ops in
      TxFileStorage_load st path filename config force = (False, st)
      \<and> TxFileStorage_empty st
      \<and> TxFileStorage_size st = 0
      \<and> TxFileStorage_totalSize st = 0
      \<and> fst (TxFileStorage_get ex infile st checksum tex) = False
      \<and> TxFileStorage_isCached st checksum = False)"
proof -
  have "f_storage (file_run ex (TxFileStorage_init opts cachePath) ops) = Map.empty
      \<and> f_totalSize (file_run ex (TxFileStorage_init opts cachePath) ops) = 0"
    by (rule file_run_storage) (simp_all add: TxFileStorage_init_def)
  then show ?thesis
    by (simp add: Let_def TxFileStorage_load_def TxFileStorage_empty_def TxFileStorage_size_def
        TxFileStorage_totalSize_def TxFileStorage_get_def TxFileStorage_isCached_def)
qed

theorem file_index_never_populated_witness:
  "(let st = file_run sample_extern (TxFileStorage_init 0 None)
               [FAdd 7 (sample_tex (Some [1, 2, 3, 4]) 0x8058) 0,
                FLoad ''cache'' ''tex.htc'' 0 True,
                FGet (\<lambda>_. sample_read) 7 (sample_tex None 0)]
    in TxFileStorage_load st ''cache'' ''tex.htc'' 0 True = (False, st)
      \<and> TxFileStorage_empty st
      \<and> TxFileStorage_size st = 0
      \<and> TxFileStorage_totalSize st = 0
      \<and> fst (TxFileStorage_get sample_extern (\<lambda>_. sample_read) st 7 (sample_tex None 0)) = False
      \<and> TxFileStorage_isCached st 7 = False)"
  by (rule file_index_never_populated)

subsection \<open>Files and the memory backend\<close>

text \<open>
  C8, as amended. The memory backend's \<open>save\<close> returns false for every state and every
  file condition and changes neither the cache nor any file. When the cache file cannot
  be opened, the memory backend's \<open>load\<close> leaves the cache as it is and returns whether
  the cache holds an entry: false for an empty cache, true otherwise. The file backend's
  \<open>load\<close> returns false for every state and file condition and changes nothing; its
  \<open>get\<close> returns false and changes nothing when the file cannot be opened, and returns
  false with the index and the total size unchanged when the seek or a read on the
  stream fails.
\<close>

theorem io_failure_results:
  "save fs st path filename config = (False, fs, st)
   \<and> (fs (path, filename) = None \<longrightarrow>
        load ex fs st path filename config force = (m_cache st \<noteq> Map.empty, st))
   \<and> TxFileStorage_load fb path filename config force = (False, fb)
   \<and> (f_outfile_open fb \<or> \<not> f_infile_open fb \<longrightarrow>
        TxFileStorage_get ex infile fb checksum tex = (False, tex, fb))
   \<and> ((\<forall>off. \<not> rd_good (infile off)) \<longrightarrow>
        fst (TxFileStorage_get ex infile fb checksum tex) = False
        \<and> f_storage (snd (snd (TxFileStorage_get ex infile fb checksum tex))) = f_storage fb
        \<and> f_totalSize (snd (snd (TxFileStorage_get ex infile fb checksum tex)))
            = f_totalSize fb)"
proof -
  have closed: "TxFileStorage_get ex infile fb checksum tex = (False, tex, fb)"
    if "f_outfile_open fb \<or> \<not> f_infile_open fb"
    using that
    by (auto simp: TxFileStorage_get_def TxFileStorage_open_def split: option.splits)
  have rd: "fst (readData ex fb r tex) = False
      \<and> f_storage (snd (snd (readData ex fb r tex))) = f_storage fb
      \<and> f_totalSize (snd (snd (readData ex fb r tex))) = f_totalSize fb"
    if "\<not> rd_good r" for r
    using that by (simp add: readData_def Let_def)
  have failed: "fst (TxFileStorage_get ex infile fb checksum tex) = False
      \<and> f_storage (snd (snd (TxFileStorage_get ex infile fb checksum tex))) = f_storage fb
      \<and> f_totalSize (snd (snd (TxFileStorage_get ex infile fb checksum tex))) = f_totalSize fb"
    if "\<forall>off. \<not> rd_good (infile off)"
  proof (cases "f_outfile_open fb \<or> \<not> f_infile_open fb")
    case True
    from closed [OF this] show ?thesis by simp
  next
    case False
    with that rd show ?thesis
      by (simp add: TxFileStorage_get_def split: option.splits)
  qed
  show ?thesis
    using closed failed by (simp add: save_def load_def TxFileStorage_load_def)
qed

theorem io_failure_results_witness:
  "save (\<lambda>_. None) (TxMemoryCache_init 0 0) ''cache'' ''tex.htc'' 0
     = (False, \<lambda>_. None, TxMemoryCache_init 0 0)
   \<and> load sample_extern (\<lambda>_. None) (TxMemoryCache_init 0 0) ''cache'' ''tex.htc'' 0 False
     = (False, TxMemoryCache_init 0 0)
   \<and> TxFileStorage_load sample_indexed ''cache'' ''tex.htc'' 0 False = (False, sample_indexed)
   \<and> TxFileStorage_isCached sample_indexed 7
   \<and> TxFileStorage_get sample_extern (\<lambda>_. sample_read) sample_indexed 7 (sample_tex None 0)
     = (False, sample_tex None 0, sample_indexed)
   \<and> f_infile_open sample_indexed_open \<and> \<not> f_outfile_open sample_indexed_open
   \<and> fst (TxFileStorage_get sample_extern (\<lambda>_. sample_read\<lparr>rd_good := False\<rparr>)
            sample_indexed_open 7 (sample_tex None 0)) = False
   \<and> f_storage (snd (snd (TxFileStorage_get sample_extern (\<lambda>_. sample_read\<lparr>rd_good := False\<rparr>)
            sample_indexed_open 7 (sample_tex None 0)))) = f_storage sample_indexed_open"
proof -
  have o: "f_outfile_open sample_indexed \<or> \<not> f_infile_open sample_indexed"
    and p: "f_infile_open sample_indexed_open \<and> \<not> f_outfile_open sample_indexed_open"
    and c: "TxFileStorage_isCached sample_indexed 7"
    by (simp_all add: sample_indexed_open_def sample_indexed_def TxFileStorage_init_def
        TxFileStorage_isCached_def)
  have r: "\<forall>off :: int64. \<not> rd_good ((\<lambda>_. sample_read\<lparr>rd_good := False\<rparr>) off)"
    by simp
  have e: "m_cache (TxMemoryCache_init 0 0) = Map.empty"
    by (simp add: TxMemoryCache_init_def)
  from io_failure_results [of "\<lambda>_. None" "TxMemoryCache_init 0 0" "''cache''" "''tex.htc''" 0
      sample_extern False sample_indexed "\<lambda>_. sample_read" 7 "sample_tex None 0"] o
  have 1: "save (\<lambda>_. None) (TxMemoryCache_init 0 0) ''cache'' ''tex.htc'' 0
        = (False, \<lambda>_. None, TxMemoryCache_init 0 0)"
    "load sample_extern (\<lambda>_. None) (TxMemoryCache_init 0 0) ''cache'' ''tex.htc'' 0 False
        = (False, TxMemoryCache_init 0 0)"
    "TxFileStorage_load sample_indexed ''cache'' ''tex.htc'' 0 False = (False, sample_indexed)"
    "TxFileStorage_get sample_extern (\<lambda>_. sample_read) sample_indexed 7 (sample_tex None 0)
        = (False, sample_tex None 0, sample_indexed)"
    by (simp_all add: e)
  from io_failure_results [of "\<lambda>_. None" "TxMemoryCache_init 0 0" "''cache''" "''tex.htc''" 0
      sample_extern False sample_indexed_open "\<lambda>_. sample_read\<lparr>rd_good := False\<rparr>" 7
      "sample_tex None 0"] r
  have 2: "fst (TxFileStorage_get sample_extern (\<lambda>_. sample_read\<lparr>rd_good := False\<rparr>)
            sample_indexed_open 7 (sample_tex None 0)) = False"
    "f_storage (snd (snd (TxFileStorage_get sample_extern (\<lambda>_. sample_read\<lparr>rd_good := False\<rparr>)
            sample_indexed_open 7 (sample_tex None 0)))) = f_storage sample_indexed_open"
    by blast+
  from 1 2 c p show ?thesis by blast
qed

text \<open>
  C8 as stated fails in three places. With one entry cached and no file to open, the
  memory backend's \<open>load\<close> returns true. With a file cut off after its first record,
  the reads of the second pass come up short, and \<open>load\<close> into an empty cache keeps
  the first record and returns true. The file backend's \<open>save\<close> returns true whatever
  the condition of the file.
\<close>

theorem io_failure_not_reported:
  "fst (load sample_extern (\<lambda>_. None)
          (snd (add sample_extern (TxMemoryCache_init 0 0) 7 (sample_tex (Some [1, 2, 3, 4]) 0x8058) 0))
          ''cache'' ''tex.htc'' 0 False) = True
   \<and> \<not> r_read_ok (hd (gz_rest sample_truncated_file))
   \<and> fst (load sample_extern (\<lambda>_. Some sample_truncated_file) (TxMemoryCache_init 0 0)
          ''cache'' ''tex.htc'' 1 False) = True
   \<and> isCached (snd (load sample_extern (\<lambda>_. Some sample_truncated_file)
          (TxMemoryCache_init 0 0) ''cache'' ''tex.htc'' 1 False)) 7
   \<and> fst (TxFileStorage_save (TxFileStorage_init 0 None) ''cache'' ''tex.htc'' 0) = True"
  by (simp add: load_def load_pass_def sample_truncated_file_def sample_record_def isCached_def
        TxFileStorage_save_def sample_simps)

text \<open>
  C5, as amended. The memory backend's \<open>save\<close> returns false and writes no file, so
  there is nothing of the cache for a later \<open>load\<close> to read back. A \<open>load\<close> into a
  fresh cache from a file whose config word differs from the requested one, with
  \<open>force\<close> false, leaves the cache empty and returns false.
\<close>

theorem save_inert_load_mismatch:
  assumes "fs (path, filename) = Some gz" and "gz_config gz \<noteq> config"
  shows "save fs st path filename config = (False, fs, st)
         \<and> load ex fs (TxMemoryCache_init opts lim) path filename config False
             = (False, TxMemoryCache_init opts lim)"
  using assms by (simp add: load_def save_def TxMemoryCache_init_def)

theorem save_inert_load_mismatch_witness:
  "save (\<lambda>_. Some sample_file) (TxMemoryCache_init 0 0) ''cache'' ''tex.htc'' 2
     = (False, \<lambda>_. Some sample_file, TxMemoryCache_init 0 0)
   \<and> load sample_extern (\<lambda>_. Some sample_file) (TxMemoryCache_init 0 0) ''cache'' ''tex.htc'' 2 False
     = (False, TxMemoryCache_init 0 0)"
  using save_inert_load_mismatch [of "\<lambda>_. Some sample_file" "''cache''" "''tex.htc''"
      sample_file 2 "TxMemoryCache_init 0 0" sample_extern 0 0]
  by (simp add: sample_file_def)

text \<open>
  C5 as stated fails: a cache that holds checksum 7 is saved where no file exists, and
  a fresh cache loaded from the same place with the same config does not hold it.
\<close>

theorem save_load_no_roundtrip:
  "isCached (snd (add sample_extern (TxMemoryCache_init 0 0) 7 (sample_tex (Some [1, 2, 3, 4]) 0x8058) 0)) 7
   \<and> \<not> isCached
        (snd (load sample_extern
               (fst (snd (save (\<lambda>_. None)
                  (snd (add sample_extern (TxMemoryCache_init 0 0) 7 (sample_tex (Some [1, 2, 3, 4]) 0x8058) 0))
                  ''cache'' ''tex.htc'' 5)))
               (TxMemoryCache_init 0 0) ''cache'' ''tex.htc'' 5 False)) 7"
  by (simp add: isCached_def save_def load_def add_def store_def make_room_def sample_tex_def
        sample_extern_def sample_sizeofTx_def TxMemoryCache_init_def size_t_of_def
        u64_of_int_def Let_def)

subsection \<open>Reading back what was added\<close>

text \<open>
  C1, as amended. Whenever \<open>add\<close> returns true for a record whose format does not carry
  the compression flag and whose payload buffer holds at least the stored size, a \<open>get\<close>
  of the same checksum returns true, and the record it fills holds the width, height,
  format, texel format, pixel type and hi-res flag passed to \<open>add\<close> and, as payload,
  the stored-size bytes of the buffer passed to \<open>add\<close>.
\<close>

theorem add_then_get:
  assumes "add ex st checksum tex dataSize = (True, st1)"
    and "data tex = Some bytes"
    and "format tex AND GL_TEXFMT_GZ ex = 0"
    and "size_t_of (stored_size ex tex dataSize) \<le> length bytes"
  shows "fst (get ex st1 checksum out) = True
         \<and> fst (snd (get ex st1 checksum out))
             = tex\<lparr>data := Some (take (size_t_of (stored_size ex tex dataSize)) bytes)\<rparr>"
proof -
  let ?d = "stored_size ex tex dataSize"
  let ?room = "make_room st ?d"
  from add_True [OF assms(1)] assms(2)
  have c0: "checksum \<noteq> 0"
    and st: "store ex ?room checksum tex bytes ?d = (True, st1)"
    by auto
  note st1 = store_True(1) [OF st]
  let ?e = "\<lparr>size_tx = ?d, info = tex\<lparr>data := Some (take (size_t_of ?d) bytes)\<rparr>,
             it = (if m_cacheLimit ?room \<noteq> 0 then Some (new_node (m_cachelist ?room)) else None)\<rparr>"
  have e: "m_cache st1 checksum = Some ?e"
    by (subst st1) simp
  then have ne: "m_cache st1 \<noteq> Map.empty" by auto
  show ?thesis
    using c0 e ne assms(3)
    by (simp add: get_def Let_def promote_def)
qed

theorem add_then_get_witness:
  "fst (get sample_extern
          (snd (add sample_extern (TxMemoryCache_init 0 1000) 7 (sample_tex (Some [1, 2, 3, 4]) 0x8058) 0))
          7 (sample_tex None 0)) = True
   \<and> fst (snd (get sample_extern
          (snd (add sample_extern (TxMemoryCache_init 0 1000) 7 (sample_tex (Some [1, 2, 3, 4]) 0x8058) 0))
          7 (sample_tex None 0))) = sample_tex (Some [1, 2, 3, 4]) 0x8058
   \<and> fst (snd (get sample_extern
          (snd (add sample_extern (TxMemoryCache_init 0 0) 9 (sample_tex (Some [5, 6, 7]) 0) 3))
          9 (sample_tex None 0))) = sample_tex (Some [5, 6, 7]) 0"
proof -
  let ?ex = sample_extern
  let ?s0 = "TxMemoryCache_init 0 1000"
  let ?s1 = "TxMemoryCache_init 0 0"
  let ?t = "sample_tex (Some [1, 2, 3, 4]) 0x8058"
  let ?u = "sample_tex (Some [5, 6, 7]) 0"
  have a: "add ?ex ?s0 7 ?t 0 = (True, snd (add ?ex ?s0 7 ?t 0))"
    by (simp add: sample_simps)
  have b: "add ?ex ?s1 9 ?u 3 = (True, snd (add ?ex ?s1 9 ?u 3))"
    by (simp add: sample_simps)
  have dt: "data ?t = Some [1, 2, 3, 4]" and du: "data ?u = Some [5, 6, 7]"
    by (simp_all add: sample_tex_def)
  have ft: "format ?t AND GL_TEXFMT_GZ ?ex = 0" and fu: "format ?u AND GL_TEXFMT_GZ ?ex = 0"
    by (simp_all add: sample_tex_def sample_extern_def)
  have lt: "size_t_of (stored_size ?ex ?t 0) \<le> length [1, 2, 3, 4 :: uint8]"
    and lu: "size_t_of (stored_size ?ex ?u 3) \<le> length [5, 6, 7 :: uint8]"
    by (simp_all add: stored_size_def sample_tex_def sample_extern_def sample_sizeofTx_def
        size_t_of_def u64_of_int_def)
  from add_then_get [OF a dt ft lt, of "sample_tex None 0"]
       add_then_get [OF b du fu lu, of "sample_tex None 0"]
  show ?thesis
    by (simp add: sample_tex_def sample_extern_def sample_sizeofTx_def stored_size_def
        size_t_of_def u64_of_int_def)
qed

text \<open>
  C1 as stated fails: a non-zero checksum never added before and a non-null payload,
  but a format \<open>sizeofTx\<close> has no size for; \<open>add\<close> returns false and so does \<open>get\<close>.
\<close>

theorem add_then_get_fails:
  "fst (add sample_extern (TxMemoryCache_init 0 0) 7 (sample_tex (Some [1, 2, 3, 4]) 0) 0) = False
   \<and> fst (get sample_extern
           (snd (add sample_extern (TxMemoryCache_init 0 0) 7 (sample_tex (Some [1, 2, 3, 4]) 0) 0))
           7 (sample_tex None 0)) = False"
  by (simp add: sample_simps)

subsection \<open>A failed decompression still promotes\<close>

text \<open>
  C10. With a non-zero budget, a \<open>get\<close> of a cached entry whose format carries the
  compression flag and whose decompression fails returns false; the entry keeps its
  record, payload and size, every other entry and \<open>totalSize()\<close> are unchanged; and the
  entry's node has been erased from \<open>_cachelist\<close> and a node for the checksum appended
  at the back, the most-recently-used end.
\<close>

theorem failed_decompress_promotes:
  assumes "m_cacheLimit st \<noteq> 0" and "checksum \<noteq> 0" and "m_cache st checksum = Some e"
    and "format (info e) AND GL_TEXFMT_GZ ex \<noteq> 0"
    and "uncompress ex (unat (m_gzdestLen st)) (stored_bytes e) = None"
  shows "fst (get ex st checksum tex) = False
         \<and> (let st' = snd (snd (get ex st checksum tex)) in
              map_option info (m_cache st' checksum) = Some (info e)
              \<and> map_option size_tx (m_cache st' checksum) = Some (size_tx e)
              \<and> (\<forall>c. c \<noteq> checksum \<longrightarrow> m_cache st' c = m_cache st c)
              \<and> totalSize st' = totalSize st
              \<and> m_cachelist st' = push_back (erase_node (it e) (m_cachelist st)) checksum
              \<and> snd (last (m_cachelist st')) = checksum)"
proof -
  from assms(3) have ne: "m_cache st \<noteq> Map.empty" by auto
  show ?thesis
    using assms ne
    by (simp add: get_def promote_def Let_def totalSize_def push_back_def)
qed

theorem failed_decompress_promotes_witness:
  "(let s2 = snd (add sample_extern
                (snd (add sample_extern (TxMemoryCache_init 0 1000) 1
                        (sample_tex (Some [1, 2, 3]) 0x80008058) 3))
                2 (sample_tex (Some [1, 2, 3, 4]) 0x8058) 0);
        r = get sample_extern s2 1 (sample_tex None 0)
    in fst r = False
       \<and> map snd (m_cachelist s2) = [1, 2]
       \<and> map snd (m_cachelist (snd (snd r))) = [2, 1]
       \<and> totalSize (snd (snd r)) = totalSize s2
       \<and> map_option info (m_cache (snd (snd r)) 1) = Some (sample_tex (Some [1, 2, 3]) 0x80008058))"
proof -
  let ?ex = sample_extern
  define s2 where "s2 = snd (add sample_extern
                (snd (add sample_extern (TxMemoryCache_init 0 1000) 1
                        (sample_tex (Some [1, 2, 3]) 0x80008058) 3))
                2 (sample_tex (Some [1, 2, 3, 4]) 0x8058) 0)"
  define e where "e = \<lparr>size_tx = 3, info = sample_tex (Some [1, 2, 3]) 0x80008058, it = Some (Suc 0)\<rparr>"
  have s2: "s2 = \<lparr>m_options = 0, m_cacheLimit = 1000, m_totalSize = 7,
       m_cache = [1 \<mapsto> e,
                  2 \<mapsto> \<lparr>size_tx = 4, info = sample_tex (Some [1, 2, 3, 4]) 0x8058, it = Some (Suc (Suc 0))\<rparr>],
       m_cachelist = [(Suc 0, 1), (Suc (Suc 0), 2)], m_gzdest0 = None, m_gzdest1 = None, m_gzdestLen = 0\<rparr>"
    unfolding s2_def e_def by (simp add: sample_simps)
  have h1: "m_cacheLimit s2 \<noteq> 0" and h3: "m_cache s2 1 = Some e"
    and h4: "format (info e) AND GL_TEXFMT_GZ ?ex \<noteq> 0"
    and h5: "uncompress ?ex (unat (m_gzdestLen s2)) (stored_bytes e) = None"
    unfolding s2 e_def
    by (simp_all add: sample_tex_def sample_extern_def stored_bytes_def size_t_of_def u64_of_int_def)
  have h2: "(1 :: uint64) \<noteq> 0" by simp
  from failed_decompress_promotes [OF h1 h2 h3 h4 h5, of "sample_tex None 0"]
  show ?thesis
    unfolding s2_def [symmetric] Let_def
    by (simp add: s2 e_def push_back_def erase_node_def new_node_def totalSize_def)
qed

subsection \<open>The LRU list and the map\<close>

lemma evict_result:
  "evict cache tot lim ns = (cache', tot', ns')
   \<Longrightarrow> \<exists>ys. ns = ys @ ns' \<and> cache' = (\<lambda>c. if c \<in> snd ` set ys then None else cache c)"
proof (induction ns arbitrary: cache tot)
  case Nil
  then show ?case by simp
next
  case (Cons n ns)
  let ?cache1 = "cache(snd n := None)"
  let ?tot1 = "(case cache (snd n) of Some e \<Rightarrow> tot - u64_of_int (size_tx e) | None \<Rightarrow> tot)"
  have step: "evict cache tot lim (n # ns)
      = (if ?tot1 \<le> lim then (?cache1, ?tot1, ns) else evict ?cache1 ?tot1 lim ns)"
    by (auto simp: fun_upd_idem split: option.splits)
  show ?case
  proof (cases "?tot1 \<le> lim")
    case True
    with Cons.prems step have "cache' = ?cache1" "ns' = ns" by simp_all
    then have "n # ns = [n] @ ns' \<and> cache' = (\<lambda>c. if c \<in> snd ` set [n] then None else cache c)"
      by auto
    then show ?thesis by blast
  next
    case False
    with Cons.prems step have "evict ?cache1 ?tot1 lim ns = (cache', tot', ns')" by simp
    from Cons.IH [OF this] obtain ys where
      ys: "ns = ys @ ns'" "cache' = (\<lambda>c. if c \<in> snd ` set ys then None else ?cache1 c)"
      by blast
    then have "n # ns = (n # ys) @ ns'
        \<and> cache' = (\<lambda>c. if c \<in> snd ` set (n # ys) then None else cache c)"
      by auto
    then show ?thesis by blast
  qed
qed

lemma make_room_result:
  "\<exists>ys. m_cachelist st = ys @ m_cachelist (make_room st d)
      \<and> m_cache (make_room st d) = (\<lambda>c. if c \<in> snd ` set ys then None else m_cache st c)"
proof (cases "m_cacheLimit st \<noteq> 0 \<and> m_totalSize st + u64_of_int d > m_cacheLimit st
    \<and> m_cachelist st \<noteq> []")
  case True
  obtain cache' tot' ns' where
    ev: "evict (m_cache st) (m_totalSize st + u64_of_int d) (m_cacheLimit st) (m_cachelist st)
      = (cache', tot', ns')"
    by (cases "evict (m_cache st) (m_totalSize st + u64_of_int d) (m_cacheLimit st) (m_cachelist st)")
  with True have "m_cachelist (make_room st d) = ns'" "m_cache (make_room st d) = cache'"
    by (simp_all add: make_room_def Let_def)
  with evict_result [OF ev] show ?thesis by simp
next
  case False
  then have "m_cachelist (make_room st d) = m_cachelist st"
    "m_cache (make_room st d) = m_cache st"
    by (auto simp: make_room_def Let_def)
  then have "m_cachelist st = [] @ m_cachelist (make_room st d)
      \<and> m_cache (make_room st d) = (\<lambda>c. if c \<in> snd ` set [] then None else m_cache st c)"
    by simp
  then show ?thesis by blast
qed

lemma make_room_inv:
  assumes "lru_inv st"
  shows "lru_inv (make_room st d)"
proof -
  from make_room_result obtain ys where
    l: "m_cachelist st = ys @ m_cachelist (make_room st d)"
    and c: "m_cache (make_room st d) = (\<lambda>c. if c \<in> snd ` set ys then None else m_cache st c)"
    by blast
  let ?ns = "m_cachelist (make_room st d)"
  from assms have d1: "distinct (map snd (ys @ ?ns))" and d2: "distinct (map fst (ys @ ?ns))"
    and s: "set (map snd (ys @ ?ns)) = dom (m_cache st)"
    and i: "\<And>k e. m_cache st k = Some e \<Longrightarrow> \<exists>i. it e = Some i \<and> (i, k) \<in> set (ys @ ?ns)"
    unfolding lru_inv_def lru_bijection_def l [symmetric] by auto
  have "set (map snd ?ns) = dom (m_cache (make_room st d))"
    using d1 s unfolding c by (auto simp: dom_def split: if_splits)
  moreover have "\<exists>i. it e = Some i \<and> (i, k) \<in> set ?ns" if "m_cache (make_room st d) k = Some e" for k e
  proof -
    from that have k: "k \<notin> snd ` set ys" "m_cache st k = Some e"
      unfolding c by (auto split: if_splits)
    from i [OF k(2)] obtain j where "it e = Some j" "(j, k) \<in> set (ys @ ?ns)" by blast
    with k(1) show ?thesis by force
  qed
  ultimately show ?thesis
    using d1 d2 unfolding lru_inv_def lru_bijection_def by auto
qed

lemma max_node_ge: "(i, c) \<in> set ns \<Longrightarrow> i \<le> max_node ns"
  by (induction ns) auto

lemma new_node_fresh: "new_node ns \<notin> fst ` set ns"
  using max_node_ge by (fastforce simp: new_node_def)


lemma store_inv:
  assumes "lru_inv st" and "m_cacheLimit st \<noteq> 0" and "m_cache st c = None"
  shows "lru_inv (snd (store ex st c tex dest d))"
proof (cases "malloc_ok ex (size_t_of d)")
  case False
  with assms(1) show ?thesis by (simp add: store_def)
next
  case True
  let ?ns = "m_cachelist st"
  from assms(1) have d1: "distinct (map snd ?ns)" and d2: "distinct (map fst ?ns)"
    and s: "set (map snd ?ns) = dom (m_cache st)"
    and i: "\<And>k e. m_cache st k = Some e \<Longrightarrow> \<exists>i. it e = Some i \<and> (i, k) \<in> set ?ns"
    unfolding lru_inv_def lru_bijection_def by auto
  from s assms(3) have c: "c \<notin> snd ` set ?ns" by (auto simp: dom_def)
  have f: "new_node ?ns \<notin> fst ` set ?ns" by (rule new_node_fresh)
  show ?thesis
    using True assms(2) d1 d2 s c f i
    unfolding lru_inv_def lru_bijection_def
    by (auto simp: store_def Let_def push_back_def)
qed

lemma add_inv:
  assumes "lru_inv st" and "m_cacheLimit st \<noteq> 0"
  shows "lru_inv (snd (add ex st c tex d))"
proof -
  have "lru_inv (snd (store ex (make_room st d') c tex dest d'))" if "m_cache st c = None"
    for d' dest
  proof (rule store_inv)
    show "lru_inv (make_room st d')" using assms(1) by (rule make_room_inv)
    show "m_cacheLimit (make_room st d') \<noteq> 0" using assms(2) by (simp add: make_room_frame)
    from make_room_result [of st d'] that show "m_cache (make_room st d') c = None"
      by auto
  qed
  with assms(1) show ?thesis
    by (auto simp: add_def Let_def split: option.splits)
qed

lemma erase_node_inv:
  assumes "distinct (map fst ns)" and "distinct (map snd ns)" and "(i, c) \<in> set ns"
  shows "distinct (map fst (erase_node (Some i) ns))"
    and "distinct (map snd (erase_node (Some i) ns))"
    and "set (map snd (erase_node (Some i) ns)) = set (map snd ns) - {c}"
    and "set (erase_node (Some i) ns) = set ns - {(i, c)}"
proof -
  have eq: "n \<in> set ns \<Longrightarrow> fst n = i \<longleftrightarrow> n = (i, c)" for n
    using assms(1,3) by (metis eq_key_imp_eq_value prod.collapse fst_conv)
  show 4: "set (erase_node (Some i) ns) = set ns - {(i, c)}"
    using eq by (auto simp: erase_node_def)
  show "distinct (map fst (erase_node (Some i) ns))"
    using assms(1) by (simp add: erase_node_def distinct_map_filter)
  show "distinct (map snd (erase_node (Some i) ns))"
    using assms(2) by (simp add: erase_node_def distinct_map_filter)
  have inj: "inj_on snd (set ns)"
    using assms(2) by (simp add: distinct_map)
  have uniq: "a = i" if "(a, c) \<in> set ns" for a
    using inj_onD [OF inj _ that assms(3)] by simp
  have "snd ` (set ns - {(i, c)}) = snd ` set ns - {c}"
  proof (rule set_eqI)
    fix x
    show "x \<in> snd ` (set ns - {(i, c)}) \<longleftrightarrow> x \<in> snd ` set ns - {c}"
    proof
      assume "x \<in> snd ` (set ns - {(i, c)})"
      then obtain n where n: "n \<in> set ns" "n \<noteq> (i, c)" "x = snd n" by blast
      have "x \<noteq> c"
      proof
        assume "x = c"
        with n have "(fst n, c) \<in> set ns" by simp
        from uniq [OF this] n(3) \<open>x = c\<close> have "n = (i, c)" by (cases n) simp
        with n(2) show False by simp
      qed
      with n show "x \<in> snd ` set ns - {c}" by simp
    next
      assume "x \<in> snd ` set ns - {c}"
      then obtain n where n: "n \<in> set ns" "x = snd n" "x \<noteq> c" by blast
      then have "n \<in> set ns - {(i, c)}" by auto
      with n(2) show "x \<in> snd ` (set ns - {(i, c)})" by blast
    qed
  qed
  with 4 show "set (map snd (erase_node (Some i) ns)) = set (map snd ns) - {c}"
    by simp
qed

lemma promote_inv:
  assumes "lru_inv st" and "m_cache st c = Some e"
  shows "lru_inv (promote st c e)"
proof -
  let ?ns = "m_cachelist st"
  from assms(1) have d1: "distinct (map snd ?ns)" and d2: "distinct (map fst ?ns)"
    and s: "set (map snd ?ns) = dom (m_cache st)"
    and i: "\<And>k e. m_cache st k = Some e \<Longrightarrow> \<exists>i. it e = Some i \<and> (i, k) \<in> set ?ns"
    unfolding lru_inv_def lru_bijection_def by auto
  from i [OF assms(2)] obtain j where j: "it e = Some j" "(j, c) \<in> set ?ns" by blast
  let ?l1 = "erase_node (Some j) ?ns"
  let ?l2 = "push_back ?l1 c"
  let ?e = "e\<lparr>it := Some (new_node ?l1)\<rparr>"
  note er = erase_node_inv [OF d2 d1 j(2)]
  have st': "m_cachelist (promote st c e) = ?l2"
    "m_cache (promote st c e) = (m_cache st)(c \<mapsto> ?e)"
    by (simp_all add: promote_def Let_def j(1))
  have f: "new_node ?l1 \<notin> fst ` set ?l1" by (rule new_node_fresh)
  have c: "c \<notin> snd ` set ?l1" using er(3) by simp
  have a1: "distinct (map snd ?l2)"
    using er(2) c by (simp add: push_back_def)
  have a2: "distinct (map fst ?l2)"
    using er(1) f by (simp add: push_back_def)
  have "c \<in> dom (m_cache st)" using assms(2) by blast
  then have a3: "set (map snd ?l2) = dom ((m_cache st)(c \<mapsto> ?e))"
    using er(3) s by (auto simp: push_back_def)
  have a4: "\<exists>i. it e' = Some i \<and> (i, k) \<in> set ?l2"
    if "((m_cache st)(c \<mapsto> ?e)) k = Some e'" for k e'
  proof (cases "k = c")
    case True
    with that have "e' = ?e" by simp
    with True show ?thesis by (simp add: push_back_def)
  next
    case False
    with that have "m_cache st k = Some e'" by simp
    from i [OF this] obtain m where m: "it e' = Some m" "(m, k) \<in> set ?ns" by blast
    with False er(4) have "(m, k) \<in> set ?l1" by simp
    with m(1) show ?thesis by (simp add: push_back_def)
  qed
  show ?thesis
    unfolding lru_inv_def lru_bijection_def st'
    using a1 a2 a3 a4 by blast
qed

lemma get_inv:
  assumes "lru_inv st"
  shows "lru_inv (snd (snd (get ex st c tex)))"
proof -
  have 1: "lru_inv (st'\<lparr>m_gzdest1 := w\<rparr>)" "lru_inv (st'\<lparr>m_gzdest0 := w\<rparr>)" if "lru_inv st'" for st' w
    using that by (simp_all add: lru_inv_def lru_bijection_def)
  show ?thesis
    using assms promote_inv [OF assms] 1
    by (auto simp: get_def Let_def split: option.splits)
qed

lemma del_inv:
  assumes "lru_inv st"
  shows "lru_inv (snd (del st c))"
proof (cases "m_cache st c")
  case None
  with assms show ?thesis by (simp add: del_def)
next
  case (Some e)
  let ?ns = "m_cachelist st"
  from assms(1) have d1: "distinct (map snd ?ns)" and d2: "distinct (map fst ?ns)"
    and s: "set (map snd ?ns) = dom (m_cache st)"
    and i: "\<And>k e. m_cache st k = Some e \<Longrightarrow> \<exists>i. it e = Some i \<and> (i, k) \<in> set ?ns"
    unfolding lru_inv_def lru_bijection_def by auto
  from i [OF Some] obtain j where j: "it e = Some j" "(j, c) \<in> set ?ns" by blast
  then have ne: "?ns \<noteq> []" by auto
  note er = erase_node_inv [OF d2 d1 j(2)]
  have keep: "\<exists>i. it e' = Some i \<and> (i, k) \<in> set (erase_node (Some j) ?ns)"
    if "m_cache st k = Some e'" "k \<noteq> c" for k e'
    using i [OF that(1)] that(2) er(4) by auto
  show ?thesis
  proof (cases "c = 0 \<or> m_cache st = Map.empty")
    case True
    with assms show ?thesis by (simp add: del_def)
  next
    case False
    then show ?thesis
      unfolding lru_inv_def lru_bijection_def
      using Some ne j(1) er(1,2,3) s keep
      by (auto simp: del_def)
  qed
qed

lemma clear_inv: "lru_inv (clear st)"
  by (simp add: clear_def lru_inv_def lru_bijection_def)

lemma add_limit: "m_cacheLimit (snd (add ex st c tex d)) = m_cacheLimit st"
  by (auto simp: add_def store_def Let_def make_room_frame split: option.splits)

lemma load_pass_inv:
  "lru_inv st \<Longrightarrow> m_cacheLimit st \<noteq> 0
   \<Longrightarrow> lru_inv (load_pass ex st r) \<and> m_cacheLimit (load_pass ex st r) = m_cacheLimit st"
  by (simp add: load_pass_def add_inv add_limit)

lemma load_passes_inv:
  "lru_inv st \<Longrightarrow> m_cacheLimit st \<noteq> 0
   \<Longrightarrow> lru_inv (foldl (load_pass ex) st rs)
       \<and> m_cacheLimit (foldl (load_pass ex) st rs) = m_cacheLimit st"
proof (induction rs arbitrary: st)
  case Nil
  then show ?case by simp
next
  case (Cons r rs)
  from load_pass_inv [OF Cons.prems, of ex r] Cons.prems(2)
  have "lru_inv (load_pass ex st r)" "m_cacheLimit (load_pass ex st r) \<noteq> 0"
    "m_cacheLimit (load_pass ex st r) = m_cacheLimit st"
    by simp_all
  with Cons.IH [of "load_pass ex st r"] show ?case by simp
qed

lemma load_inv:
  assumes "lru_inv st" and "m_cacheLimit st \<noteq> 0"
  shows "lru_inv (snd (load ex fs st p f cfg force))
       \<and> m_cacheLimit (snd (load ex fs st p f cfg force)) = m_cacheLimit st"
proof (cases "fs (p, f)")
  case None
  with assms show ?thesis by (simp add: load_def)
next
  case (Some gz)
  from load_passes_inv [OF assms, of ex "gz_first gz # gz_rest gz"] assms Some
  show ?thesis by (simp add: load_def Let_def del: foldl_Cons)
qed

lemma mem_step_inv:
  assumes "lru_inv st" and "m_cacheLimit st \<noteq> 0"
  shows "lru_inv (mem_step ex st op) \<and> m_cacheLimit (mem_step ex st op) = m_cacheLimit st"
proof (cases op)
  case (Add c tex d)
  with assms show ?thesis by (simp add: add_inv add_limit)
next
  case (Get c tex)
  have "m_cacheLimit (snd (snd (get ex st c tex))) = m_cacheLimit st"
    by (auto simp: get_def promote_def Let_def split: option.splits)
  with Get assms show ?thesis by (simp add: get_inv)
next
  case (Del c)
  have "m_cacheLimit (snd (del st c)) = m_cacheLimit st"
    by (auto simp: del_def split: option.splits)
  with Del assms show ?thesis by (simp add: del_inv)
next
  case Clear
  then show ?thesis by (simp add: clear_inv) (simp add: clear_def)
next
  case (Load fs p f cfg force)
  with assms load_inv show ?thesis by simp
next
  case (Save fs p f cfg)
  with assms show ?thesis by (simp add: save_def)
next
  case (SetOptions opts)
  with assms show ?thesis by (simp add: setOptions_def lru_inv_def lru_bijection_def)
qed

lemma mem_run_inv:
  "lru_inv st \<Longrightarrow> m_cacheLimit st \<noteq> 0
   \<Longrightarrow> lru_inv (mem_run ex st ops) \<and> m_cacheLimit (mem_run ex st ops) = m_cacheLimit st"
  unfolding mem_run_def
proof (induction ops arbitrary: st)
  case Nil
  then show ?case by simp
next
  case (Cons op ops)
  from mem_step_inv [OF Cons.prems, of ex op] Cons.prems(2)
  have "lru_inv (mem_step ex st op)" "m_cacheLimit (mem_step ex st op) \<noteq> 0"
    "m_cacheLimit (mem_step ex st op) = m_cacheLimit st"
    by simp_all
  with Cons.IH [of "mem_step ex st op"] show ?case by simp
qed

lemma init_inv: "lru_inv (TxMemoryCache_init opts lim)"
  by (simp add: TxMemoryCache_init_def lru_inv_def lru_bijection_def)


text \<open>
  C7. With a non-zero byte budget, after any sequence of \<open>add\<close> (with its eviction
  pass), \<open>get\<close>, \<open>del\<close>, \<open>clear\<close>, \<open>load\<close>, \<open>save\<close> and \<open>setOptions\<close> calls on a
  newly constructed memory backend, every checksum of the map is held by exactly one
  node of the LRU list and every node of the list holds a key of the map. (Each call
  preserves \<open>lru_inv\<close>, the same invariant together with the validity of the stored
  iterators: lemma \<open>mem_step_inv\<close>.)
\<close>

theorem lru_bijection_preserved:
  assumes "lim \<noteq> 0"
  shows "lru_bijection (mem_run ex (TxMemoryCache_init opts lim) ops)"
proof -
  have "m_cacheLimit (TxMemoryCache_init opts lim) \<noteq> 0"
    using assms by (simp add: TxMemoryCache_init_def)
  from mem_run_inv [OF init_inv this] show ?thesis
    by (simp add: lru_inv_def)
qed

theorem lru_bijection_preserved_witness:
  "(10 :: uint64) \<noteq> 0
   \<and> lru_bijection (mem_run sample_extern (TxMemoryCache_init 0 10)
        [Add 1 (sample_tex (Some [1, 2, 3, 4]) 0x8058) 0,
         Add 2 (sample_tex (Some [5, 6, 7, 8]) 0x8058) 0,
         Get 1 (sample_tex None 0),
         Add 3 (sample_tex (Some [9, 10, 11, 12]) 0x8058) 0,
         Del 1,
         Load (\<lambda>_. Some sample_file) ''cache'' ''tex.htc'' 1 False,
         Clear])"
  using lru_bijection_preserved [of 10 sample_extern 0] by simp

subsection \<open>Eviction order\<close>

lemma add_True_shape:
  assumes "add ex st c tex d = (True, st1)" and "m_cacheLimit st \<noteq> 0"
  shows "\<exists>ys zs e. m_cachelist st = ys @ zs
           \<and> m_cachelist st1 = zs @ [(new_node zs, c)]
           \<and> m_cache st1 = (\<lambda>k. if k \<in> snd ` set ys then None else m_cache st k)(c \<mapsto> e)
           \<and> it e = Some (new_node zs)
           \<and> c \<noteq> 0 \<and> m_cache st c = None \<and> m_cacheLimit st1 = m_cacheLimit st"
proof -
  let ?d = "stored_size ex tex d"
  let ?room = "make_room st ?d"
  from add_True [OF assms(1)] obtain dest where
    c: "c \<noteq> 0" "m_cache st c = None"
    and st: "store ex ?room c tex dest ?d = (True, st1)"
    by blast
  from make_room_result [of st ?d] obtain ys where
    ys: "m_cachelist st = ys @ m_cachelist ?room"
    "m_cache ?room = (\<lambda>k. if k \<in> snd ` set ys then None else m_cache st k)"
    by blast
  have lim: "m_cacheLimit ?room \<noteq> 0" using assms(2) by (simp add: make_room_frame)
  note st1 = store_True(1) [OF st]
  have "m_cachelist st1 = m_cachelist ?room @ [(new_node (m_cachelist ?room), c)]"
    by (subst st1) (simp add: lim push_back_def)
  moreover have "m_cache st1 = (m_cache ?room)(c \<mapsto>
        \<lparr>size_tx = ?d, info = tex\<lparr>data := Some (take (size_t_of ?d) dest)\<rparr>,
         it = Some (new_node (m_cachelist ?room))\<rparr>)"
    by (subst st1) (simp add: lim)
  moreover have "m_cacheLimit st1 = m_cacheLimit st"
    by (subst st1) (simp add: make_room_frame)
  ultimately show ?thesis
    using ys c by (intro exI [of _ ys] exI [of _ "m_cachelist ?room"] exI) auto
qed

lemma get_shape:
  assumes "m_cacheLimit st \<noteq> 0" and "c \<noteq> 0" and "m_cache st c = Some e"
  shows "m_cachelist (snd (snd (get ex st c tex))) = push_back (erase_node (it e) (m_cachelist st)) c"
    and "m_cache (snd (snd (get ex st c tex)))
           = (m_cache st)(c \<mapsto> e\<lparr>it := Some (new_node (erase_node (it e) (m_cachelist st)))\<rparr>)"
    and "m_cacheLimit (snd (snd (get ex st c tex))) = m_cacheLimit st"
proof -
  from assms(3) have ne: "m_cache st \<noteq> Map.empty" by auto
  show "m_cachelist (snd (snd (get ex st c tex))) = push_back (erase_node (it e) (m_cachelist st)) c"
    using assms ne by (simp add: get_def promote_def Let_def split: option.splits)
  show "m_cache (snd (snd (get ex st c tex)))
           = (m_cache st)(c \<mapsto> e\<lparr>it := Some (new_node (erase_node (it e) (m_cachelist st)))\<rparr>)"
    using assms ne by (simp add: get_def promote_def Let_def split: option.splits)
  show "m_cacheLimit (snd (snd (get ex st c tex))) = m_cacheLimit st"
    using assms ne by (simp add: get_def promote_def Let_def split: option.splits)
qed

lemma append_eq_single:
  "ys @ zs = [a] \<longleftrightarrow> (ys = [] \<and> zs = [a]) \<or> (ys = [a] \<and> zs = [])"
  by (cases ys) auto

lemma append_eq_pair:
  "ys @ zs = [a, b] \<longleftrightarrow>
     (ys = [] \<and> zs = [a, b]) \<or> (ys = [a] \<and> zs = [b]) \<or> (ys = [a, b] \<and> zs = [])"
  by (cases ys) (auto simp: append_eq_single Cons_eq_append_conv)

text \<open>
  C3, as amended. On a newly constructed memory backend with a non-zero budget: entry A
  is added, then entry B is added and both are cached (two entries), then A is fetched
  once with \<open>get\<close> (B is never fetched); if a further \<open>add\<close> of C returns true and
  leaves two entries cached (it evicts exactly one), then B is the one evicted and A
  survives: \<open>get\<close> moved A behind B, and eviction takes the front of the list.
\<close>

theorem lru_eviction_order:
  assumes lim: "lim \<noteq> 0"
    and a: "add ex (TxMemoryCache_init opts lim) cA texA dA = (True, s1)"
    and b: "add ex s1 cB texB dB = (True, s2)"
    and nb: "size_cache s2 = 2"
    and g: "s3 = snd (snd (get ex s2 cA out))"
    and c: "add ex s3 cC texC dC = (True, s4)"
    and nc: "size_cache s4 = 2"
  shows "isCached s4 cA \<and> \<not> isCached s4 cB \<and> isCached s4 cC"
proof -
  let ?s0 = "TxMemoryCache_init opts lim"
  have l0: "m_cacheLimit ?s0 \<noteq> 0" "m_cachelist ?s0 = []" "m_cache ?s0 = Map.empty"
    using lim by (simp_all add: TxMemoryCache_init_def)
  from add_True_shape [OF a l0(1)] l0(2,3) obtain eA where
    s1: "m_cachelist s1 = [(new_node [], cA)]" "m_cache s1 = [cA \<mapsto> eA]"
      "it eA = Some (new_node [])" "cA \<noteq> 0" "m_cacheLimit s1 \<noteq> 0"
    using l0(1) by auto
  let ?nA = "new_node []"
  from add_True_shape [OF b s1(5)] obtain ys zs eB where
    s2': "m_cachelist s1 = ys @ zs" "m_cachelist s2 = zs @ [(new_node zs, cB)]"
      "m_cache s2 = (\<lambda>k. if k \<in> snd ` set ys then None else m_cache s1 k)(cB \<mapsto> eB)"
      "it eB = Some (new_node zs)" "m_cache s1 cB = None" "m_cacheLimit s2 = m_cacheLimit s1"
    by blast
  from s2'(5) s1(2) have ab: "cA \<noteq> cB" by auto
  have "ys = []"
  proof (rule ccontr)
    assume "ys \<noteq> []"
    from s2'(1) s1(1) have "ys @ zs = [(?nA, cA)]" by simp
    with \<open>ys \<noteq> []\<close> have "ys = [(?nA, cA)]" by (simp add: append_eq_single)
    with s2'(3) s1(2) have "dom (m_cache s2) = {cB}" by (auto simp: dom_def)
    with nb show False by (simp add: size_cache_def)
  qed
  with s2' s1 have s2: "m_cachelist s2 = [(?nA, cA), (new_node [(?nA, cA)], cB)]"
    "m_cache s2 = [cA \<mapsto> eA, cB \<mapsto> eB]" "m_cacheLimit s2 \<noteq> 0"
    by auto
  let ?nB = "new_node [(?nA, cA)]"
  have nAB: "?nA \<noteq> ?nB" by (simp add: new_node_def)
  from s2(2) ab have eA: "m_cache s2 cA = Some eA" by simp
  note gs = get_shape [OF s2(3) s1(4) eA, of ex out, folded g]
  let ?nA' = "new_node [(?nB, cB)]"
  have s3: "m_cachelist s3 = [(?nB, cB), (?nA', cA)]"
    "m_cache s3 = [cA \<mapsto> eA\<lparr>it := Some ?nA'\<rparr>, cB \<mapsto> eB]" "m_cacheLimit s3 \<noteq> 0"
    using gs s2 s1(3) nAB ab by (auto simp: erase_node_def push_back_def)
  from add_True_shape [OF c s3(3)] obtain ys zs eC where
    s4: "m_cachelist s3 = ys @ zs"
      "m_cache s4 = (\<lambda>k. if k \<in> snd ` set ys then None else m_cache s3 k)(cC \<mapsto> eC)"
      "m_cache s3 cC = None"
    by blast
  from s4(3) s3(2) have cc: "cC \<noteq> cA" "cC \<noteq> cB" by (auto split: if_splits)
  from s4(1) s3(1) have "ys @ zs = [(?nB, cB), (?nA', cA)]" by simp
  then consider "ys = []" | "ys = [(?nB, cB)]" | "ys = [(?nB, cB), (?nA', cA)]"
    unfolding append_eq_pair by blast
  then show ?thesis
  proof cases
    case 1
    with s4(2) s3(2) ab cc have "dom (m_cache s4) = {cA, cB, cC}" by (auto simp: dom_def)
    with ab cc have "card (dom (m_cache s4)) = 3" by simp
    with nc show ?thesis by (simp add: size_cache_def)
  next
    case 2
    with s4(2) s3(2) ab cc show ?thesis by (simp add: isCached_def)
  next
    case 3
    with s4(2) s3(2) ab cc have "dom (m_cache s4) = {cC}" by (auto simp: dom_def)
    with nc show ?thesis by (simp add: size_cache_def)
  qed
qed

theorem lru_eviction_order_witness:
  "(let s1 = snd (add sample_extern (TxMemoryCache_init 0 10) 1 (sample_tex (Some [1, 2, 3, 4]) 0x8058) 0);
        s2 = snd (add sample_extern s1 2 (sample_tex (Some [5, 6, 7, 8]) 0x8058) 0);
        s3 = snd (snd (get sample_extern s2 1 (sample_tex None 0)));
        s4 = snd (add sample_extern s3 3 (sample_tex (Some [9, 10, 11, 12]) 0x8058) 0)
    in isCached s4 1 \<and> \<not> isCached s4 2 \<and> isCached s4 3)"
proof -
  let ?ex = sample_extern
  define s1 where "s1 = snd (add ?ex (TxMemoryCache_init 0 10) 1 (sample_tex (Some [1, 2, 3, 4]) 0x8058) 0)"
  define s2 where "s2 = snd (add ?ex s1 2 (sample_tex (Some [5, 6, 7, 8]) 0x8058) 0)"
  define s3 where "s3 = snd (snd (get ?ex s2 1 (sample_tex None 0)))"
  define s4 where "s4 = snd (add ?ex s3 3 (sample_tex (Some [9, 10, 11, 12]) 0x8058) 0)"
  note defs = s4_def s3_def s2_def s1_def
  have lim: "(10 :: uint64) \<noteq> 0" by simp
  have a: "add ?ex (TxMemoryCache_init 0 10) 1 (sample_tex (Some [1, 2, 3, 4]) 0x8058) 0 = (True, s1)"
    unfolding defs by (simp add: sample_simps)
  have b: "add ?ex s1 2 (sample_tex (Some [5, 6, 7, 8]) 0x8058) 0 = (True, s2)"
    unfolding defs by (simp add: sample_simps)
  have nb: "size_cache s2 = 2"
    unfolding defs by (simp add: sample_simps size_cache_def)
  have c: "add ?ex s3 3 (sample_tex (Some [9, 10, 11, 12]) 0x8058) 0 = (True, s4)"
    unfolding defs by (simp add: sample_simps)
  have nc: "size_cache s4 = 2"
    unfolding defs by (simp add: sample_simps size_cache_def)
  from lru_eviction_order [OF lim a b nb s3_def c nc]
  show ?thesis unfolding Let_def defs .
qed

text \<open>
  C3 as stated fails: on a new cache with budget 10, A (4 bytes) is added and fetched,
  B (4 bytes) is added, and the \<open>add\<close> of C (4 bytes) evicts exactly one entry; it is
  A that is evicted, and B survives.
\<close>

theorem promoted_entry_evicted_first:
  "(let s1 = snd (add sample_extern (TxMemoryCache_init 0 10) 1 (sample_tex (Some [1, 2, 3, 4]) 0x8058) 0);
        s2 = snd (snd (get sample_extern s1 1 (sample_tex None 0)));
        s3 = snd (add sample_extern s2 2 (sample_tex (Some [5, 6, 7, 8]) 0x8058) 0);
        s4 = snd (add sample_extern s3 3 (sample_tex (Some [9, 10, 11, 12]) 0x8058) 0)
    in size_cache s3 = 2 \<and> size_cache s4 = 2 \<and> isCached s4 2 \<and> \<not> isCached s4 1)"
  by (simp add: sample_simps isCached_def size_cache_def)

subsection \<open>The budget after a sequence of adds\<close>



lemma listed_bytes_append [simp]:
  "listed_bytes cache (ys @ zs) = listed_bytes cache ys + listed_bytes cache zs"
  by (simp add: listed_bytes_def)
















subsection \<open>Removing entries\<close>

text \<open>
  X1. \<open>clear()\<close> leaves the memory backend with \<open>empty()\<close> true, \<open>size()\<close> 0 and
  \<open>totalSize()\<close> 0.
\<close>

theorem clear_empties:
  "empty_cache (clear st) \<and> size_cache (clear st) = 0 \<and> totalSize (clear st) = 0"
  by (simp add: clear_def empty_cache_def size_cache_def totalSize_def)

text \<open>
  X2. \<open>del\<close> of a cached (non-zero) checksum returns true, after it \<open>isCached\<close> is
  false for the checksum and \<open>totalSize()\<close> is smaller by exactly the entry's stored
  size; \<open>del\<close> of a checksum that is not cached returns false and changes nothing.
\<close>

theorem del_removes_entry:
  "(checksum \<noteq> 0 \<and> m_cache st checksum = Some e \<longrightarrow>
      fst (del st checksum) = True
      \<and> \<not> isCached (snd (del st checksum)) checksum
      \<and> totalSize (snd (del st checksum)) = totalSize st - u64_of_int (size_tx e))
   \<and> (m_cache st checksum = None \<longrightarrow> del st checksum = (False, st))"
proof -
  have "m_cache st \<noteq> Map.empty" if "m_cache st checksum = Some e"
    using that by auto
  then show ?thesis
    by (auto simp: del_def isCached_def totalSize_def)
qed

theorem del_removes_entry_witness:
  "(let s1 = snd (add sample_extern (TxMemoryCache_init 0 1000) 7 (sample_tex (Some [1, 2, 3, 4]) 0x8058) 0)
    in isCached s1 7 \<and> totalSize s1 = 4
       \<and> fst (del s1 7) = True \<and> \<not> isCached (snd (del s1 7)) 7 \<and> totalSize (snd (del s1 7)) = 0
       \<and> del s1 8 = (False, s1))"
proof -
  define s1 where "s1 = snd (add sample_extern (TxMemoryCache_init 0 1000) 7
      (sample_tex (Some [1, 2, 3, 4]) 0x8058) 0)"
  define e where "e = \<lparr>size_tx = 4, info = sample_tex (Some [1, 2, 3, 4]) 0x8058, it = Some (Suc 0)\<rparr>"
  have s1: "s1 = \<lparr>m_options = 0, m_cacheLimit = 1000, m_totalSize = 4, m_cache = [7 \<mapsto> e],
       m_cachelist = [(Suc 0, 7)], m_gzdest0 = None, m_gzdest1 = None, m_gzdestLen = 0\<rparr>"
    unfolding s1_def e_def by (simp add: sample_simps)
  have h: "(7 :: uint64) \<noteq> 0 \<and> m_cache s1 7 = Some e" and n: "m_cache s1 8 = None"
    by (simp_all add: s1)
  have sz: "u64_of_int (size_tx e) = 4" by (simp add: e_def u64_of_int_def)
  from del_removes_entry [of 7 s1 e] h have
    "fst (del s1 7) = True \<and> \<not> isCached (snd (del s1 7)) 7
     \<and> totalSize (snd (del s1 7)) = totalSize s1 - u64_of_int (size_tx e)"
    by blast
  moreover from del_removes_entry [of 8 s1 e] n have "del s1 8 = (False, s1)" by blast
  moreover have "isCached s1 7" "totalSize s1 = 4"
    by (simp_all add: s1 isCached_def totalSize_def)
  ultimately show ?thesis
    unfolding Let_def s1_def [symmetric] by (simp add: sz)
qed

end
